theory Spec2Isabelle
  imports Main
begin

section \<open>Record model of \<open>py_obs/project.py\<close>\<close>

text \<open>
  The dataclasses of the module, one record per class. Field names carry the class name
  as a prefix, because several classes share \<open>name\<close>, \<open>person\<close>, \<open>package\<close> and
  \<open>size\<close>. A field typed \<open>T | None\<close> is an \<open>option\<close>.
\<close>

record PathEntry =
  PathEntry_project :: string
  PathEntry_repository :: string

record Repository =
  Repository_name :: string
  Repository_path :: "PathEntry list option"
  Repository_arch :: "string list option"

text \<open>
  Modelled from the spec: \<open>Person\<close>, \<open>Person2\<close>, \<open>UserGroup\<close>, the owner records and the
  group references are declared in \<open>py_obs/person.py\<close>, which the module imports. A
  \<open>Person\<close> is a user id with a role. A \<open>Person2\<close> is the person of an owner record: the
  user id, which the field \<open>name\<close> holds, and the role the person has for the package or
  project. \<open>Person2(x)\<close>, as the module writes it for a member of a group, leaves the role
  at its default, \<open>None\<close>. Both are frozen dataclasses, so two values are equal when all
  their fields are: two \<open>Person2\<close> values of one user id and two roles are different
  values. A group has a list of maintainer persons and a list of plain member persons, of
  which the module reads the field \<open>userid\<close>; an owner record carries an optional project
  name, an optional package name, directly named persons and group references.
\<close>

record Person =
  Person_userid :: string
  Person_role :: string

datatype Person2 = Person2 (Person2_name: string) (Person2_role: "string option")

record GroupPerson =
  GroupPerson_userid :: string

record PersonList =
  PersonList_person :: "GroupPerson list"

record UserGroup =
  UserGroup_maintainer :: "GroupPerson list"
  UserGroup_person :: PersonList

record Group =
  Group_name :: string

record Owner =
  Owner_project :: "string option"
  Owner_package :: "string option"
  Owner_person :: "Person2 list"
  Owner_group :: "Group list"

record OwnerCollection =
  OwnerCollection_owner :: "Owner list"

record Project =
  Project_name :: string
  Project_title :: string
  Project_description :: string
  Project_person :: "Person list option"
  Project_repository :: "Repository list option"

record Package =
  Package_name :: string
  Package_title :: string
  Package_description :: string
  Package_scmsync :: "string option"

record PackageMaintainers =
  PackageMaintainers_package :: "Person2 list"
  PackageMaintainers_project :: "Person2 list"

record Entry =
  Entry_name :: "string option"
  Entry_md5 :: "string option"
  Entry_size :: "int option"
  Entry_mtime :: "int option"
  Entry_originproject :: "string option"
  Entry_available :: "bool option"
  Entry_recommended :: "bool option"
  Entry_hash :: "string option"

record LinkInfo =
  LinkInfo_project :: "string option"
  LinkInfo_package :: "string option"
  LinkInfo_srcmd5 :: "string option"
  LinkInfo_rev :: "string option"
  LinkInfo_baserev :: "string option"
  LinkInfo_xsrcmd5 :: "string option"
  LinkInfo_lsrcmd5 :: "string option"
  LinkInfo_error :: "string option"

record ServiceInfo =
  ServiceInfo_code :: "string option"
  ServiceInfo_error :: "string option"
  ServiceInfo_lsrcmd5 :: "string option"
  ServiceInfo_xsrcmd5 :: "string option"

record Directory =
  Directory_name :: "string option"
  Directory_rev :: "string option"
  Directory_vrev :: "string option"
  Directory_srcmd5 :: "string option"
  Directory_count :: "int option"
  Directory_entry :: "Entry list"
  Directory_linkinfo :: "LinkInfo list"
  Directory_serviceinfo :: "ServiceInfo list"

record File =
  File_name :: string
  File_md5_sum :: string
  File_size :: int
  File_mtime :: int

subsection \<open>XML elements\<close>

text \<open>
  An \<open>xml.etree.ElementTree.Element\<close>: tag, attributes in insertion order, text and
  children.
\<close>

datatype Element =
  Element (Element_tag: string) (Element_attrib: "(string \<times> string) list")
    (Element_text: "string option") (Element_children: "Element list")


subsection \<open>Truth values of Python objects\<close>

text \<open>
  What \<open>if x\<close> and \<open>x and y\<close> test: an optional string is true when it is set and not
  empty, an optional integer when it is set and not zero, an optional dataclass instance
  when it is set, a list when it is set and not empty, and an \<open>Element\<close> when it has at
  least one child.
\<close>

fun truthy_str :: "string option \<Rightarrow> bool" where
  "truthy_str None = False"
| "truthy_str (Some s) = (s \<noteq> [])"

fun truthy_int :: "int option \<Rightarrow> bool" where
  "truthy_int None = False"
| "truthy_int (Some i) = (i \<noteq> 0)"


fun truthy_list :: "'a list option \<Rightarrow> bool" where
  "truthy_list None = False"
| "truthy_list (Some xs) = (xs \<noteq> [])"


text \<open>
  An argument typed \<open>Package | str | None\<close>: a \<open>Package\<close> instance is always true, a
  string when it is not empty.
\<close>

fun truthy_pkg_arg :: "(Package + string) option \<Rightarrow> bool" where
  "truthy_pkg_arg None = False"
| "truthy_pkg_arg (Some (Inl _)) = True"
| "truthy_pkg_arg (Some (Inr s)) = (s \<noteq> [])"

text \<open>\<open>sep.join(xs)\<close> on strings.\<close>

fun join :: "string \<Rightarrow> string list \<Rightarrow> string" where
  "join sep [] = []"
| "join sep [x] = x"
| "join sep (x # y # ys) = x @ sep @ join sep (y # ys)"

text \<open>
  \<open>list(set(xs))\<close>: the elements of \<open>xs\<close>, each once. Python does not specify the order
  in which a set is iterated; the model keeps the last occurrence of each element in
  place, and no statement below depends on the order.
\<close>

definition list_set :: "'a list \<Rightarrow> 'a list" where
  "list_set xs = remdups xs"

section \<open>The transport\<close>

datatype http_method = GET | PUT | DELETE | POST

text \<open>The request body: the bytes \<open>ET.tostring\<close> gives for an element.\<close>

datatype payload = XmlBytes Element


text \<open>
  The arguments of one \<open>Osc.api_request\<close> call. A keyword the call site does not pass is
  \<open>None\<close>; \<open>params\<close> is the dictionary in insertion order.
\<close>

record request =
  req_route :: string
  req_method :: "http_method option"
  req_params :: "(string \<times> string) list option"
  req_payload :: "payload option"

text \<open>
  Modelled from the spec: the transport \<open>Osc\<close>, the document mapping \<open>from_response\<close>
  and \<open>fetch_group\<close> live in \<open>py_obs/osc.py\<close>, \<open>py_obs/xml_factory.py\<close> and
  \<open>py_obs/person.py\<close>. The transport answers a request with a document or fails with a
  transport error; the document mapping turns a document into the record of its root
  element or fails; fetching a group issues one request for the group and gives its
  \<open>UserGroup\<close> or fails.
\<close>

datatype transport_error = HTTPStatus nat | ConnectionFailed

datatype response =
  CollectionDoc OwnerCollection
| DirectoryDoc Directory
| EmptyDoc

datatype error =
  AssertionError string
| TransportError transport_error
| ParseError

record Osc =
  api_response :: "request \<Rightarrow> transport_error + response"
  group_response :: "string \<Rightarrow> transport_error + UserGroup"

text \<open>What a call does that its caller can observe besides its result.\<close>

datatype event = ApiRequest request | GroupFetch string

text \<open>
  A coroutine of the module: the requests it issued, in order, and either the exception
  that ended it or its result.
\<close>

type_synonym 'a io = "event list \<times> (error + 'a)"

definition return_io :: "'a \<Rightarrow> 'a io" where
  "return_io x = ([], Inr x)"

definition raise_io :: "error \<Rightarrow> 'a io" where
  "raise_io e = ([], Inl e)"

text \<open>Sequencing: \<open>y = await m; ... f(y)\<close>. An exception of \<open>m\<close> ends the coroutine.\<close>

definition bind_io :: "'a io \<Rightarrow> ('a \<Rightarrow> 'b io) \<Rightarrow> 'b io" where
  "bind_io m f =
     (case snd m of
        Inl e \<Rightarrow> (fst m, Inl e)
      | Inr x \<Rightarrow> (fst m @ fst (f x), snd (f x)))"

definition lift_transport :: "transport_error + 'a \<Rightarrow> error + 'a" where
  "lift_transport r = (case r of Inl e \<Rightarrow> Inl (TransportError e) | Inr x \<Rightarrow> Inr x)"

definition api_request :: "Osc \<Rightarrow> request \<Rightarrow> response io" where
  "api_request osc req = ([ApiRequest req], lift_transport (api_response osc req))"

definition fetch_group :: "Osc \<Rightarrow> string \<Rightarrow> UserGroup io" where
  "fetch_group osc group_name =
     ([GroupFetch group_name], lift_transport (group_response osc group_name))"

fun OwnerCollection_from_response :: "response \<Rightarrow> OwnerCollection io" where
  "OwnerCollection_from_response (CollectionDoc c) = return_io c"
| "OwnerCollection_from_response _ = raise_io ParseError"

fun Directory_from_response :: "response \<Rightarrow> Directory io" where
  "Directory_from_response (DirectoryDoc d) = return_io d"
| "Directory_from_response _ = raise_io ParseError"

text \<open>
  \<open>asyncio.gather(*tasks)\<close>: every task is started, so every task's requests are issued;
  the call gives the results in the order of the tasks, or raises when a task raises. When
  several tasks raise, Python propagates the exception raised first in time; the model
  takes the first in the order of the tasks.
\<close>

fun gather :: "'a io list \<Rightarrow> 'a list io" where
  "gather [] = ([], Inr [])"
| "gather (m # ms) =
     (fst m @ fst (gather ms),
      case snd m of
        Inl e \<Rightarrow> Inl e
      | Inr x \<Rightarrow> (case snd (gather ms) of Inl e \<Rightarrow> Inl e | Inr xs \<Rightarrow> Inr (x # xs)))"

section \<open>\<open>search_for_maintainers\<close>\<close>

text \<open>The closure \<open>fetch_group_members\<close> of the loop body, for the owner at hand.\<close>

definition fetch_group_members :: "Osc \<Rightarrow> string list \<Rightarrow> Owner \<Rightarrow> Person2 list io" where
  "fetch_group_members osc groups_to_ignore owner =
     bind_io
       (gather
          (map (\<lambda>grp. fetch_group osc (Group_name grp))
             (filter (\<lambda>grp. Group_name grp \<notin> set groups_to_ignore) (Owner_group owner))))
       (\<lambda>res. return_io
          (concat (map (\<lambda>grp. map (\<lambda>maint. Person2 (GroupPerson_userid maint) None)
                                    (UserGroup_maintainer grp)) res)
           @ concat (map (\<lambda>grp. map (\<lambda>pers. Person2 (GroupPerson_userid pers) None)
                                    (PersonList_person (UserGroup_person grp))) res)))"

text \<open>
  The loop over \<open>owners.owner\<close>, with the two lists \<open>pkg_maintainers\<close> and
  \<open>prj_maintainers\<close> as its state.
\<close>

fun owner_loop ::
  "Osc \<Rightarrow> string list \<Rightarrow> string \<Rightarrow> Owner list \<Rightarrow> Person2 list \<times> Person2 list
     \<Rightarrow> (Person2 list \<times> Person2 list) io" where
  "owner_loop osc groups_to_ignore pkg_name [] acc = return_io acc"
| "owner_loop osc groups_to_ignore pkg_name (owner # owners) acc =
     bind_io
       (if truthy_str (Owner_project owner) \<and> Owner_package owner = Some pkg_name
        then bind_io (fetch_group_members osc groups_to_ignore owner)
               (\<lambda>members. return_io (fst acc @ Owner_person owner @ members))
        else return_io (fst acc))
       (\<lambda>pkg_maintainers.
          bind_io
            (if truthy_str (Owner_project owner) \<and> \<not> truthy_str (Owner_package owner)
             then bind_io (fetch_group_members osc groups_to_ignore owner)
                    (\<lambda>members. return_io (snd acc @ Owner_person owner @ members))
             else return_io (snd acc))
            (\<lambda>prj_maintainers.
               owner_loop osc groups_to_ignore pkg_name owners
                 (pkg_maintainers, prj_maintainers)))"

text \<open>
  The first statement of the function: \<open>if not pkg_name: assert pkg; pkg_name = pkg.name\<close>.
\<close>

definition resolve_pkg_name :: "Package option \<Rightarrow> string option \<Rightarrow> error + string" where
  "resolve_pkg_name pkg pkg_name =
     (if \<not> truthy_str pkg_name
      then (case pkg of
              None \<Rightarrow> Inl (AssertionError [])
            | Some p \<Rightarrow> Inr (Package_name p))
      else (case pkg_name of Some n \<Rightarrow> Inr n | None \<Rightarrow> Inl (AssertionError [])))"

definition owner_search_request :: "string \<Rightarrow> string list option \<Rightarrow> request" where
  "owner_search_request pkg_name roles =
     \<lparr>req_route = ''/search/owner'', req_method = Some GET,
      req_params = Some ([(''package'', pkg_name)]
                         @ (if truthy_list roles
                            then [(''filter'', join '','' (case roles of Some rs \<Rightarrow> rs | None \<Rightarrow> []))]
                            else [])),
      req_payload = None\<rparr>"

definition search_for_maintainers ::
  "Osc \<Rightarrow> Package option \<Rightarrow> string option \<Rightarrow> string list option \<Rightarrow> string list option
     \<Rightarrow> PackageMaintainers io" where
  "search_for_maintainers osc pkg pkg_name roles groups_to_ignore =
     (case resolve_pkg_name pkg pkg_name of
        Inl e \<Rightarrow> raise_io e
      | Inr name \<Rightarrow>
          bind_io (api_request osc (owner_search_request name roles))
            (\<lambda>resp. bind_io (OwnerCollection_from_response resp)
               (\<lambda>owners.
                  bind_io
                    (owner_loop osc (case groups_to_ignore of None \<Rightarrow> [] | Some gs \<Rightarrow> gs) name
                       (OwnerCollection_owner owners) ([], []))
                    (\<lambda>acc. return_io
                       \<lparr>PackageMaintainers_package = list_set (fst acc),
                        PackageMaintainers_project = list_set (snd acc)\<rparr>))))"

section \<open>\<open>send_meta\<close>\<close>








section \<open>\<open>delete\<close>\<close>

text \<open>
  An argument typed \<open>Project | str\<close> or \<open>Package | str\<close> is a sum: \<open>Inl\<close> the record,
  \<open>Inr\<close> the name.
\<close>

definition delete :: "Osc \<Rightarrow> Project + string \<Rightarrow> (Package + string) option \<Rightarrow> bool \<Rightarrow> unit io" where
  "delete osc prj pkg force =
     bind_io
       (api_request osc
          \<lparr>req_route =
             ''/source/'' @ (case prj of Inl p \<Rightarrow> Project_name p | Inr s \<Rightarrow> s) @ ''/''
             @ (if truthy_pkg_arg pkg
                then (case pkg of
                        Some (Inl p) \<Rightarrow> Package_name p
                      | Some (Inr s) \<Rightarrow> s
                      | None \<Rightarrow> [])
                else []),
           req_method = Some DELETE,
           req_params = (if force then Some [(''force'', ''1'')] else None),
           req_payload = None\<rparr>)
       (\<lambda>_. return_io ())"

section \<open>\<open>fetch_file_list\<close>\<close>

definition prj_and_pkg_name :: "Project + string \<Rightarrow> Package + string \<Rightarrow> string \<times> string" where
  "prj_and_pkg_name prj pkg =
     (case prj of Inl p \<Rightarrow> Project_name p | Inr s \<Rightarrow> s,
      case pkg of Inl p \<Rightarrow> Package_name p | Inr s \<Rightarrow> s)"

text \<open>
  The list comprehension: the condition is Python's truth value of each of the four
  fields; \<open>the\<close> reads a field the condition has found set.
\<close>

definition fetch_file_list :: "Osc \<Rightarrow> Project + string \<Rightarrow> Package + string \<Rightarrow> File list io" where
  "fetch_file_list osc prj pkg =
     bind_io
       (api_request osc
          \<lparr>req_route = ''/source/'' @ fst (prj_and_pkg_name prj pkg) @ ''/''
                         @ snd (prj_and_pkg_name prj pkg),
           req_method = None, req_params = None, req_payload = None\<rparr>)
       (\<lambda>resp. bind_io (Directory_from_response resp)
          (\<lambda>dir. return_io
             (map (\<lambda>entry. \<lparr>File_name = the (Entry_name entry),
                             File_md5_sum = the (Entry_md5 entry),
                             File_size = the (Entry_size entry),
                             File_mtime = the (Entry_mtime entry)\<rparr>)
                (filter (\<lambda>entry. truthy_str (Entry_name entry) \<and> truthy_str (Entry_md5 entry)
                                  \<and> truthy_int (Entry_size entry) \<and> truthy_int (Entry_mtime entry))
                   (Directory_entry dir)))))"

section \<open>Notions of the specification\<close>

text \<open>
  The two scopes of an owner record for a queried package name: package scope when its
  project is set and its package is the queried one, project scope when its project is set
  and its package is empty.
\<close>

definition package_scope :: "string \<Rightarrow> Owner \<Rightarrow> bool" where
  "package_scope pkg_name owner =
     (truthy_str (Owner_project owner) \<and> Owner_package owner = Some pkg_name)"

definition project_scope :: "Owner \<Rightarrow> bool" where
  "project_scope owner =
     (truthy_str (Owner_project owner) \<and> \<not> truthy_str (Owner_package owner))"

text \<open>
  The members a fetched group yields, maintainers and plain members alike, each as a
  \<open>Person2\<close> without a role, and the members an owner record's groups resolve to when the
  groups to ignore are left out.
\<close>

definition group_persons :: "UserGroup \<Rightarrow> Person2 list" where
  "group_persons grp =
     map (\<lambda>member. Person2 (GroupPerson_userid member) None)
       (UserGroup_maintainer grp @ PersonList_person (UserGroup_person grp))"

definition resolved_members :: "Osc \<Rightarrow> string list \<Rightarrow> Owner \<Rightarrow> Person2 list" where
  "resolved_members osc groups_to_ignore owner =
     concat
       (map (\<lambda>grp. case group_response osc (Group_name grp) of
                     Inl _ \<Rightarrow> []
                   | Inr g \<Rightarrow> group_persons g)
          (filter (\<lambda>grp. Group_name grp \<notin> set groups_to_ignore) (Owner_group owner)))"

text \<open>What an owner record gives to the scope it belongs to.\<close>

definition owner_contribution :: "Osc \<Rightarrow> string list \<Rightarrow> Owner \<Rightarrow> Person2 set" where
  "owner_contribution osc groups_to_ignore owner =
     set (Owner_person owner) \<union> set (resolved_members osc groups_to_ignore owner)"




definition is_group_fetch :: "event \<Rightarrow> bool" where
  "is_group_fetch ev = (case ev of GroupFetch _ \<Rightarrow> True | ApiRequest _ \<Rightarrow> False)"

section \<open>Concrete services\<close>

text \<open>
  The scenario of the specification: the owner search gives one owner record of project
  \<open>home:x\<close> and package \<open>pkgA\<close> with the person \<open>alice\<close>, a maintainer, and the group
  \<open>grp1\<close>, and \<open>grp1\<close> has the maintainer \<open>bob\<close> and no plain member. Any other group is
  not found.
\<close>

definition owner_pkgA :: Owner where
  "owner_pkgA =
     \<lparr>Owner_project = Some ''home:x'', Owner_package = Some ''pkgA'',
      Owner_person = [Person2 ''alice'' (Some ''maintainer'')], Owner_group = [\<lparr>Group_name = ''grp1''\<rparr>]\<rparr>"

definition group_grp1 :: UserGroup where
  "group_grp1 =
     \<lparr>UserGroup_maintainer = [\<lparr>GroupPerson_userid = ''bob''\<rparr>],
      UserGroup_person = \<lparr>PersonList_person = []\<rparr>\<rparr>"

fun groups_grp1 :: "string \<Rightarrow> transport_error + UserGroup" where
  "groups_grp1 g = (if g = ''grp1'' then Inr group_grp1 else Inl (HTTPStatus 404))"

fun no_groups :: "string \<Rightarrow> transport_error + UserGroup" where
  "no_groups g = Inl (HTTPStatus 404)"

fun answer_with :: "response \<Rightarrow> request \<Rightarrow> transport_error + response" where
  "answer_with doc req = Inr doc"

definition osc_scenario :: Osc where
  "osc_scenario =
     \<lparr>api_response = answer_with (CollectionDoc \<lparr>OwnerCollection_owner = [owner_pkgA]\<rparr>),
      group_response = groups_grp1\<rparr>"

text \<open>The same service after \<open>grp1\<close> has been removed.\<close>

definition osc_group_gone :: Osc where
  "osc_group_gone =
     \<lparr>api_response = answer_with (CollectionDoc \<lparr>OwnerCollection_owner = [owner_pkgA]\<rparr>),
      group_response = no_groups\<rparr>"

text \<open>
  A service whose owner search gives a package-scope record and a project-scope record,
  both naming \<open>alice\<close>.
\<close>

definition owner_prj :: Owner where
  "owner_prj =
     \<lparr>Owner_project = Some ''home:x'', Owner_package = None,
      Owner_person = [Person2 ''carol'' (Some ''maintainer''), Person2 ''alice'' (Some ''maintainer'')],
      Owner_group = [\<lparr>Group_name = ''grp1''\<rparr>]\<rparr>"

definition osc_two_owners :: Osc where
  "osc_two_owners =
     \<lparr>api_response =
        answer_with (CollectionDoc \<lparr>OwnerCollection_owner = [owner_pkgA, owner_prj]\<rparr>),
      group_response = groups_grp1\<rparr>"

text \<open>
  A service whose owner search gives two records for the package, of two projects, that
  name the same person and the same group.
\<close>

definition owner_pkgA_home_y :: Owner where
  "owner_pkgA_home_y = owner_pkgA\<lparr>Owner_project := Some ''home:y''\<rparr>"

definition osc_repeated :: Osc where
  "osc_repeated =
     \<lparr>api_response =
        answer_with (CollectionDoc \<lparr>OwnerCollection_owner = [owner_pkgA, owner_pkgA_home_y]\<rparr>),
      group_response = groups_grp1\<rparr>"

text \<open>
  A service whose owner search gives one record for the package, in which \<open>alice\<close> is
  named twice: as maintainer and as bug owner.
\<close>

definition owner_two_roles :: Owner where
  "owner_two_roles =
     \<lparr>Owner_project = Some ''home:x'', Owner_package = Some ''pkgA'',
      Owner_person = [Person2 ''alice'' (Some ''maintainer''), Person2 ''alice'' (Some ''bugowner'')],
      Owner_group = []\<rparr>"

definition osc_two_roles :: Osc where
  "osc_two_roles =
     \<lparr>api_response = answer_with (CollectionDoc \<lparr>OwnerCollection_owner = [owner_two_roles]\<rparr>),
      group_response = no_groups\<rparr>"

text \<open>
  A package record whose name is the empty string, and a service whose owner search gives
  a record with the empty string as its package.
\<close>

definition pkg_unnamed :: Package where
  "pkg_unnamed =
     \<lparr>Package_name = [], Package_title = ''t'', Package_description = [],
      Package_scmsync = None\<rparr>"

definition owner_empty_pkg :: Owner where
  "owner_empty_pkg =
     \<lparr>Owner_project = Some ''home:x'', Owner_package = Some [],
      Owner_person = [Person2 ''alice'' (Some ''maintainer'')], Owner_group = []\<rparr>"

definition osc_empty_pkg :: Osc where
  "osc_empty_pkg =
     \<lparr>api_response = answer_with (CollectionDoc \<lparr>OwnerCollection_owner = [owner_empty_pkg]\<rparr>),
      group_response = no_groups\<rparr>"

text \<open>A service that answers every request with an empty document.\<close>

definition osc_plain :: Osc where
  "osc_plain = \<lparr>api_response = answer_with EmptyDoc, group_response = no_groups\<rparr>"

text \<open>
  A project record, and a \<open>send_meta\<close> call that passes it together with a project name.
\<close>

definition prj_home_x :: Project where
  "prj_home_x =
     \<lparr>Project_name = ''home:x'', Project_title = ''t'', Project_description = [],
      Project_person = None, Project_repository = None\<rparr>"








text \<open>
  A directory listing with an empty file, a file of ten bytes and an entry without a hash.
\<close>

definition entry_blank :: Entry where
  "entry_blank =
     \<lparr>Entry_name = None, Entry_md5 = None, Entry_size = None, Entry_mtime = None,
      Entry_originproject = None, Entry_available = None, Entry_recommended = None,
      Entry_hash = None\<rparr>"

definition entry_empty_file :: Entry where
  "entry_empty_file =
     entry_blank\<lparr>Entry_name := Some ''empty.txt'',
       Entry_md5 := Some ''d41d8cd98f00b204e9800998ecf8427e'',
       Entry_size := Some 0, Entry_mtime := Some 100\<rparr>"

definition entry_b :: Entry where
  "entry_b =
     entry_blank\<lparr>Entry_name := Some ''b.txt'', Entry_md5 := Some ''abc123'',
       Entry_size := Some 10, Entry_mtime := Some 100\<rparr>"

definition entry_a :: Entry where
  "entry_a =
     entry_blank\<lparr>Entry_name := Some ''a.txt'', Entry_size := Some 10, Entry_mtime := Some 100\<rparr>"

definition dir_of :: "Entry list \<Rightarrow> Directory" where
  "dir_of entries =
     \<lparr>Directory_name = Some ''pkgA'', Directory_rev = None, Directory_vrev = None,
      Directory_srcmd5 = None, Directory_count = None, Directory_entry = entries,
      Directory_linkinfo = [], Directory_serviceinfo = []\<rparr>"

definition osc_listing :: "Entry list \<Rightarrow> Osc" where
  "osc_listing entries =
     \<lparr>api_response = answer_with (DirectoryDoc (dir_of entries)), group_response = no_groups\<rparr>"

section \<open>Coroutines, \<open>gather\<close> and the transport\<close>

lemma snd_bind_io_Inr:
  "snd (bind_io m f) = Inr y \<longleftrightarrow> (\<exists>x. snd m = Inr x \<and> snd (f x) = Inr y)"
  by (simp add: bind_io_def split: sum.splits)

lemma snd_bind_io_Inl:
  "snd (bind_io m f) = Inl e \<longleftrightarrow> (snd m = Inl e \<or> (\<exists>x. snd m = Inr x \<and> snd (f x) = Inl e))"
  by (simp add: bind_io_def split: sum.splits)

lemma fst_bind_io:
  "fst (bind_io m f) = (case snd m of Inl e \<Rightarrow> fst m | Inr x \<Rightarrow> fst m @ fst (f x))"
  by (simp add: bind_io_def split: sum.splits)

lemma snd_return_io [simp]: "snd (return_io x) = Inr x"
  by (simp add: return_io_def)

lemma fst_return_io [simp]: "fst (return_io x) = []"
  by (simp add: return_io_def)

lemma fst_gather: "fst (gather ms) = concat (map fst ms)"
  by (induction ms) simp_all

lemma snd_gather_Inr: "snd (gather ms) = Inr xs \<Longrightarrow> map snd ms = map Inr xs"
  by (induction ms arbitrary: xs) (auto split: sum.splits)

lemma snd_gather_Inl: "snd (gather ms) = Inl e \<Longrightarrow> \<exists>m\<in>set ms. snd m = Inl e"
  by (induction ms) (auto split: sum.splits)

lemma gather_fails: "m \<in> set ms \<Longrightarrow> snd m = Inl e \<Longrightarrow> \<exists>e'. snd (gather ms) = Inl e'"
  by (induction ms) (auto split: sum.splits)

section \<open>Group expansion\<close>

lemma snd_fetch_group:
  "snd (fetch_group osc g) = lift_transport (group_response osc g)"
  by (simp add: fetch_group_def)

lemma fst_fetch_group_members:
  "fst (fetch_group_members osc ign owner) =
     map GroupFetch (filter (\<lambda>g. g \<notin> set ign) (map Group_name (Owner_group owner)))"
  by (simp add: fetch_group_members_def fst_bind_io fst_gather fetch_group_def filter_map
      comp_def map_concat split: sum.splits)

lemma lift_transport_Inr [simp]: "lift_transport r = Inr x \<longleftrightarrow> r = Inr x"
  by (simp add: lift_transport_def split: sum.splits)

lemma lift_transport_Inl [simp]:
  "lift_transport r = Inl e \<longleftrightarrow> (\<exists>te. r = Inl te \<and> e = TransportError te)"
  by (auto simp: lift_transport_def split: sum.splits)

lemma group_responses_of_gather:
  "snd (gather (map (\<lambda>grp. fetch_group osc (Group_name grp)) gs)) = Inr res
     \<Longrightarrow> map (\<lambda>grp. group_response osc (Group_name grp)) gs = map Inr res"
proof (induction gs arbitrary: res)
  case Nil
  then show ?case by simp
next
  case (Cons g gs)
  then show ?case
    by (auto simp: snd_fetch_group split: sum.splits)
qed

lemma snd_fetch_group_members_Inr:
  assumes "snd (fetch_group_members osc ign owner) = Inr ms"
  shows "set ms = set (resolved_members osc ign owner)"
proof -
  let ?gs = "filter (\<lambda>grp. Group_name grp \<notin> set ign) (Owner_group owner)"
  from assms obtain res where
    res: "snd (gather (map (\<lambda>grp. fetch_group osc (Group_name grp)) ?gs)) = Inr res"
    and ms: "ms = concat (map (\<lambda>grp. map (\<lambda>maint. Person2 (GroupPerson_userid maint) None)
                                         (UserGroup_maintainer grp)) res)
           @ concat (map (\<lambda>grp. map (\<lambda>pers. Person2 (GroupPerson_userid pers) None)
                                    (PersonList_person (UserGroup_person grp))) res)"
    unfolding fetch_group_members_def snd_bind_io_Inr by auto
  have "map (\<lambda>grp. group_response osc (Group_name grp)) ?gs = map Inr res"
    using res by (rule group_responses_of_gather)
  then have "map (case_sum (\<lambda>_. []) group_persons) (map (\<lambda>grp. group_response osc (Group_name grp)) ?gs)
             = map (case_sum (\<lambda>_. []) group_persons) (map Inr res)"
    by simp
  then have "resolved_members osc ign owner = concat (map group_persons res)"
    by (simp add: resolved_members_def comp_def)
  then show ?thesis
    by (auto simp: ms group_persons_def)
qed

lemma snd_fetch_group_members_Inl:
  assumes "snd (fetch_group_members osc ign owner) = Inl e"
  shows "\<exists>grp\<in>set (Owner_group owner). Group_name grp \<notin> set ign
           \<and> (\<exists>te. group_response osc (Group_name grp) = Inl te \<and> e = TransportError te)"
proof -
  let ?gs = "filter (\<lambda>grp. Group_name grp \<notin> set ign) (Owner_group owner)"
  from assms have "snd (gather (map (\<lambda>grp. fetch_group osc (Group_name grp)) ?gs)) = Inl e"
    unfolding fetch_group_members_def snd_bind_io_Inl by auto
  then obtain m where "m \<in> set (map (\<lambda>grp. fetch_group osc (Group_name grp)) ?gs)" "snd m = Inl e"
    using snd_gather_Inl by blast
  then show ?thesis
    by (auto simp: snd_fetch_group)
qed

lemma fetch_group_members_fails:
  assumes "grp \<in> set (Owner_group owner)" "Group_name grp \<notin> set ign"
    "group_response osc (Group_name grp) = Inl te"
  shows "\<exists>e. snd (fetch_group_members osc ign owner) = Inl e"
proof -
  let ?gs = "filter (\<lambda>grp. Group_name grp \<notin> set ign) (Owner_group owner)"
  have "fetch_group osc (Group_name grp) \<in> set (map (\<lambda>grp. fetch_group osc (Group_name grp)) ?gs)"
    using assms(1,2) by auto
  moreover have "snd (fetch_group osc (Group_name grp)) = Inl (TransportError te)"
    by (simp add: snd_fetch_group assms(3))
  ultimately obtain e where "snd (gather (map (\<lambda>grp. fetch_group osc (Group_name grp)) ?gs)) = Inl e"
    using gather_fails by blast
  then show ?thesis
    by (auto simp: fetch_group_members_def snd_bind_io_Inl)
qed

section \<open>The loop over the owner records\<close>

lemma snd_owner_loop_Inr:
  "snd (owner_loop osc ign n owners acc) = Inr acc' \<Longrightarrow>
     set (fst acc') = set (fst acc)
        \<union> (\<Union>owner\<in>set (filter (package_scope n) owners). owner_contribution osc ign owner)
     \<and> set (snd acc') = set (snd acc)
        \<union> (\<Union>owner\<in>set (filter project_scope owners). owner_contribution osc ign owner)"
proof (induction owners arbitrary: acc)
  case Nil
  then show ?case by simp
next
  case (Cons owner owners)
  from Cons.prems obtain p q where
    p: "snd (if package_scope n owner
             then bind_io (fetch_group_members osc ign owner)
                    (\<lambda>members. return_io (fst acc @ Owner_person owner @ members))
             else return_io (fst acc)) = Inr p"
    and q: "snd (if project_scope owner
             then bind_io (fetch_group_members osc ign owner)
                    (\<lambda>members. return_io (snd acc @ Owner_person owner @ members))
             else return_io (snd acc)) = Inr q"
    and rest: "snd (owner_loop osc ign n owners (p, q)) = Inr acc'"
    by (auto simp: snd_bind_io_Inr package_scope_def project_scope_def)
  have sp: "set p = set (fst acc)
       \<union> (if package_scope n owner then owner_contribution osc ign owner else {})"
    using p
    by (auto simp: snd_bind_io_Inr owner_contribution_def
        dest!: snd_fetch_group_members_Inr split: if_splits)
  have sq: "set q = set (snd acc)
       \<union> (if project_scope owner then owner_contribution osc ign owner else {})"
    using q
    by (auto simp: snd_bind_io_Inr owner_contribution_def
        dest!: snd_fetch_group_members_Inr split: if_splits)
  from Cons.IH [OF rest] show ?case
    by (auto simp: sp sq)
qed

lemma fst_owner_loop:
  "ev \<in> set (fst (owner_loop osc ign n owners acc)) \<Longrightarrow>
     \<exists>g. ev = GroupFetch g \<and> g \<notin> set ign"
proof (induction owners arbitrary: acc)
  case Nil
  then show ?case by simp
next
  case (Cons owner owners)
  then show ?case
    by (auto simp: fst_bind_io fst_fetch_group_members split: sum.splits if_splits)
qed

lemma snd_owner_loop_Inl:
  "snd (owner_loop osc ign n owners acc) = Inl e \<Longrightarrow>
     \<exists>owner\<in>set owners. (package_scope n owner \<or> project_scope owner)
        \<and> (\<exists>grp\<in>set (Owner_group owner). Group_name grp \<notin> set ign
             \<and> (\<exists>te. group_response osc (Group_name grp) = Inl te \<and> e = TransportError te))"
proof (induction owners arbitrary: acc)
  case Nil
  then show ?case by simp
next
  case (Cons owner owners)
  then show ?case
    by (auto simp: snd_bind_io_Inl package_scope_def project_scope_def
        dest!: snd_fetch_group_members_Inl split: if_splits)
qed

lemma owner_loop_fails:
  assumes "owner \<in> set owners" "package_scope n owner \<or> project_scope owner"
    "grp \<in> set (Owner_group owner)" "Group_name grp \<notin> set ign"
    "group_response osc (Group_name grp) = Inl te"
  shows "\<exists>e. snd (owner_loop osc ign n owners acc) = Inl e"
  using assms(1)
proof (induction owners arbitrary: acc)
  case Nil
  then show ?case by simp
next
  case (Cons a owners)
  show ?case
  proof (cases "a = owner")
    case True
    obtain e where e: "snd (fetch_group_members osc ign owner) = Inl e"
      using fetch_group_members_fails [OF assms(3,4,5)] by blast
    show ?thesis
      using assms(2) e True
      by (auto simp: snd_bind_io_Inl package_scope_def project_scope_def)
  next
    case False
    then have "owner \<in> set owners" using Cons.prems by simp
    from Cons.IH [OF this] have ih: "\<And>acc. \<exists>e. snd (owner_loop osc ign n owners acc) = Inl e"
      by blast
    show ?thesis
      unfolding owner_loop.simps snd_bind_io_Inl using ih
      by (metis sum.exhaust)
  qed
qed

section \<open>The maintainer search\<close>

lemma snd_api_request:
  "snd (api_request osc req) = lift_transport (api_response osc req)"
  by (simp add: api_request_def)

lemma snd_OwnerCollection_from_response_Inr:
  "snd (OwnerCollection_from_response resp) = Inr c \<longleftrightarrow> resp = CollectionDoc c"
  by (cases resp) (simp_all add: raise_io_def)

lemma snd_OwnerCollection_from_response_Inl:
  "snd (OwnerCollection_from_response resp) = Inl e \<Longrightarrow> e = ParseError"
  by (cases resp) (simp_all add: raise_io_def)

lemma snd_search_Inr:
  assumes "snd (search_for_maintainers osc pkg pkg_name roles groups_to_ignore) = Inr r"
  obtains n c acc where
    "resolve_pkg_name pkg pkg_name = Inr n"
    "api_response osc (owner_search_request n roles) = Inr (CollectionDoc c)"
    "snd (owner_loop osc (case groups_to_ignore of None \<Rightarrow> [] | Some gs \<Rightarrow> gs) n
            (OwnerCollection_owner c) ([], [])) = Inr acc"
    "r = \<lparr>PackageMaintainers_package = list_set (fst acc),
          PackageMaintainers_project = list_set (snd acc)\<rparr>"
proof (cases "resolve_pkg_name pkg pkg_name")
  case (Inl e)
  with assms show ?thesis
    by (simp add: search_for_maintainers_def raise_io_def)
next
  case (Inr n)
  with assms that show ?thesis
    by (auto simp: search_for_maintainers_def snd_bind_io_Inr snd_api_request
        snd_OwnerCollection_from_response_Inr)
qed

lemma snd_search_resolved:
  assumes "resolve_pkg_name pkg pkg_name = Inr n"
    "api_response osc (owner_search_request n roles) = Inr (CollectionDoc c)"
  shows "snd (search_for_maintainers osc pkg pkg_name roles groups_to_ignore) =
     (case snd (owner_loop osc (case groups_to_ignore of None \<Rightarrow> [] | Some gs \<Rightarrow> gs) n
                  (OwnerCollection_owner c) ([], [])) of
        Inl e \<Rightarrow> Inl e
      | Inr acc \<Rightarrow> Inr \<lparr>PackageMaintainers_package = list_set (fst acc),
                         PackageMaintainers_project = list_set (snd acc)\<rparr>)"
  using assms
  by (simp add: search_for_maintainers_def bind_io_def api_request_def lift_transport_def
      return_io_def split: sum.splits)

lemma search_unresolved:
  "resolve_pkg_name pkg pkg_name = Inl e \<Longrightarrow>
     search_for_maintainers osc pkg pkg_name roles groups_to_ignore = ([], Inl e)"
  by (simp add: search_for_maintainers_def raise_io_def)

lemma fst_search_resolved:
  assumes "resolve_pkg_name pkg pkg_name = Inr n"
  shows "\<exists>rest. fst (search_for_maintainers osc pkg pkg_name roles groups_to_ignore)
                  = ApiRequest (owner_search_request n roles) # rest
           \<and> (\<forall>ev\<in>set rest. \<exists>g. ev = GroupFetch g
                 \<and> g \<notin> set (case groups_to_ignore of None \<Rightarrow> [] | Some gs \<Rightarrow> gs))"
proof -
  have "fst (search_for_maintainers osc pkg pkg_name roles groups_to_ignore)
          = ApiRequest (owner_search_request n roles)
            # (case api_response osc (owner_search_request n roles) of
                 Inr (CollectionDoc c) \<Rightarrow>
                   fst (owner_loop osc (case groups_to_ignore of None \<Rightarrow> [] | Some gs \<Rightarrow> gs) n
                          (OwnerCollection_owner c) ([], []))
               | _ \<Rightarrow> [])"
    using assms
    by (simp add: search_for_maintainers_def fst_bind_io api_request_def lift_transport_def
        raise_io_def split: sum.splits response.splits)
  then show ?thesis
    by (auto split: sum.splits response.splits dest: fst_owner_loop)
qed

lemma snd_search_Inl:
  assumes "snd (search_for_maintainers osc pkg pkg_name roles groups_to_ignore) = Inl e"
    and "resolve_pkg_name pkg pkg_name = Inr n"
  shows "e = ParseError \<or> (\<exists>te. e = TransportError te)"
  using assms
  by (auto simp: search_for_maintainers_def snd_bind_io_Inl snd_api_request
      dest!: snd_owner_loop_Inl snd_OwnerCollection_from_response_Inl)

lemma fetch_group_members_cong:
  assumes "\<forall>h. h \<notin> set ign \<longrightarrow> group_response osc' h = group_response osc h"
  shows "fetch_group_members osc' ign owner = fetch_group_members osc ign owner"
proof -
  have eq: "map (\<lambda>grp. fetch_group osc' (Group_name grp))
          (filter (\<lambda>grp. Group_name grp \<notin> set ign) (Owner_group owner))
      = map (\<lambda>grp. fetch_group osc (Group_name grp))
          (filter (\<lambda>grp. Group_name grp \<notin> set ign) (Owner_group owner))"
    using assms by (intro map_cong) (auto simp: fetch_group_def)
  show ?thesis
    unfolding fetch_group_members_def eq by (rule refl)
qed

lemma owner_loop_cong:
  assumes "\<forall>h. h \<notin> set ign \<longrightarrow> group_response osc' h = group_response osc h"
  shows "owner_loop osc' ign n owners acc = owner_loop osc ign n owners acc"
  by (induction owners arbitrary: acc) (simp_all add: fetch_group_members_cong [OF assms])

text \<open>
  Claim C1. The owner search for \<open>pkgA\<close> answers with a single record: project \<open>home:x\<close>,
  package \<open>pkgA\<close>, the person \<open>alice\<close> (in any role) and the group \<open>grp1\<close>; and the group
  \<open>grp1\<close> resolves to \<^term>\<open>group_grp1\<close> (maintainer \<open>bob\<close>, no plain member). Then the
  search by the name \<open>pkgA\<close>, without groups to ignore, returns a result whose package
  list has two elements, of the user ids \<open>alice\<close> and \<open>bob\<close>, and whose project list
  is empty.
\<close>

theorem scenario_alice_bob:
  assumes "api_response osc (owner_search_request ''pkgA'' roles)
             = Inr (CollectionDoc
                      \<lparr>OwnerCollection_owner =
                         [\<lparr>Owner_project = Some ''home:x'', Owner_package = Some ''pkgA'',
                           Owner_person = [Person2 ''alice'' alice_role],
                           Owner_group = [\<lparr>Group_name = ''grp1''\<rparr>]\<rparr>]\<rparr>)"
    and "group_response osc ''grp1'' = Inr group_grp1"
  shows "\<exists>r. snd (search_for_maintainers osc None (Some ''pkgA'') roles None) = Inr r
           \<and> set (map Person2_name (PackageMaintainers_package r)) = {''alice'', ''bob''}
           \<and> length (PackageMaintainers_package r) = 2
           \<and> PackageMaintainers_project r = []"
proof -
  let ?owner = "\<lparr>Owner_project = Some ''home:x'', Owner_package = Some ''pkgA'',
                  Owner_person = [Person2 ''alice'' alice_role],
                  Owner_group = [\<lparr>Group_name = ''grp1''\<rparr>]\<rparr>"
  have res: "resolve_pkg_name None (Some ''pkgA'') = Inr ''pkgA''"
    by (simp add: resolve_pkg_name_def)
  have loop: "snd (owner_loop osc [] ''pkgA'' [?owner] ([], []))
                = Inr ([Person2 ''alice'' alice_role, Person2 ''bob'' None], [])"
    by (simp add: group_grp1_def fetch_group_members_def fetch_group_def
        bind_io_def return_io_def lift_transport_def assms(2))
  have "snd (search_for_maintainers osc None (Some ''pkgA'') roles None)
          = Inr \<lparr>PackageMaintainers_package
                   = list_set [Person2 ''alice'' alice_role, Person2 ''bob'' None],
                 PackageMaintainers_project = list_set []\<rparr>"
    by (simp only: snd_search_resolved [OF res assms(1)] option.simps loop sum.simps fst_conv
        snd_conv OwnerCollection.select_convs)
  then show ?thesis
    by (auto simp: list_set_def)
qed

theorem scenario_alice_bob_witness:
  "\<exists>r. snd (search_for_maintainers osc_scenario None (Some ''pkgA'') None None) = Inr r
           \<and> set (map Person2_name (PackageMaintainers_package r)) = {''alice'', ''bob''}
           \<and> length (PackageMaintainers_package r) = 2
           \<and> PackageMaintainers_project r = []"
  by (rule scenario_alice_bob) (simp_all add: osc_scenario_def owner_pkgA_def)

text \<open>
  Claim C5, as amended. Whenever the search returns a result, no element occurs twice in
  its package list and none occurs twice in its project list, where two elements are the
  same when they agree in user id and in role. The two lists are de-duplicated apart from
  each other. One user id can occur twice in a list, with two roles.
\<close>

theorem maintainers_distinct:
  assumes "snd (search_for_maintainers osc pkg pkg_name roles groups_to_ignore) = Inr r"
  shows "distinct (PackageMaintainers_package r) \<and> distinct (PackageMaintainers_project r)"
  using assms by (rule snd_search_Inr) (simp add: list_set_def)

text \<open>
  A run in which two owner records name \<open>alice\<close> and the group of \<open>bob\<close>: the loop
  collects each of them twice, and the result holds each once.
\<close>

theorem maintainers_distinct_witness:
  "snd (owner_loop osc_repeated [] ''pkgA'' [owner_pkgA, owner_pkgA_home_y] ([], []))
     = Inr ([Person2 ''alice'' (Some ''maintainer''), Person2 ''bob'' None,
             Person2 ''alice'' (Some ''maintainer''), Person2 ''bob'' None], [])
   \<and> snd (search_for_maintainers osc_repeated None (Some ''pkgA'') None None)
       = Inr \<lparr>PackageMaintainers_package
                = [Person2 ''alice'' (Some ''maintainer''), Person2 ''bob'' None],
              PackageMaintainers_project = []\<rparr>
   \<and> distinct [Person2 ''alice'' (Some ''maintainer''), Person2 ''bob'' None]"
proof -
  have loop: "snd (owner_loop osc_repeated [] ''pkgA'' [owner_pkgA, owner_pkgA_home_y] ([], []))
     = Inr ([Person2 ''alice'' (Some ''maintainer''), Person2 ''bob'' None,
             Person2 ''alice'' (Some ''maintainer''), Person2 ''bob'' None], [])"
    by code_simp
  have run: "snd (search_for_maintainers osc_repeated None (Some ''pkgA'') None None)
       = Inr \<lparr>PackageMaintainers_package
                = [Person2 ''alice'' (Some ''maintainer''), Person2 ''bob'' None],
              PackageMaintainers_project = []\<rparr>"
    by code_simp
  from maintainers_distinct [OF run]
  have "distinct [Person2 ''alice'' (Some ''maintainer''), Person2 ''bob'' None]"
    by (simp only: PackageMaintainers.select_convs)
  with loop run show ?thesis
    by (intro conjI)
qed

theorem same_user_id_twice:
  "search_for_maintainers osc_two_roles None (Some ''pkgA'') None None
     = ([ApiRequest (owner_search_request ''pkgA'' None)],
        Inr \<lparr>PackageMaintainers_package
               = [Person2 ''alice'' (Some ''maintainer''), Person2 ''alice'' (Some ''bugowner'')],
             PackageMaintainers_project = []\<rparr>)
   \<and> \<not> distinct (map Person2_name
                    [Person2 ''alice'' (Some ''maintainer''),
                     Person2 ''alice'' (Some ''bugowner'')])"
  by code_simp

text \<open>
  Claim C2, as amended. The queried package name is not empty, and the search returns a
  result. Then the package list holds exactly what the owner records in package scope
  contribute (their persons and the members of their groups that are not ignored), the
  project list holds exactly what the owner records in project scope contribute, and no
  owner record is in both scopes. In particular the persons of a record whose package is
  the queried one are in the package list, and a record with an empty package gives its
  persons and resolved members to the project list and is not among the records that make
  up the package list.
\<close>

theorem scopes_of_owner_records:
  assumes "resolve_pkg_name pkg pkg_name = Inr n" and "n \<noteq> []"
    and "api_response osc (owner_search_request n roles) = Inr (CollectionDoc c)"
    and "snd (search_for_maintainers osc pkg pkg_name roles groups_to_ignore) = Inr r"
    and "ign = (case groups_to_ignore of None \<Rightarrow> [] | Some gs \<Rightarrow> gs)"
  shows "set (PackageMaintainers_package r)
           = (\<Union>owner\<in>set (filter (package_scope n) (OwnerCollection_owner c)).
                 owner_contribution osc ign owner)
       \<and> set (PackageMaintainers_project r)
           = (\<Union>owner\<in>set (filter project_scope (OwnerCollection_owner c)).
                 owner_contribution osc ign owner)
       \<and> (\<forall>owner\<in>set (OwnerCollection_owner c).
             package_scope n owner \<longrightarrow>
               set (Owner_person owner) \<subseteq> set (PackageMaintainers_package r))
       \<and> (\<forall>owner\<in>set (OwnerCollection_owner c).
             project_scope owner \<longrightarrow>
               set (Owner_person owner) \<union> set (resolved_members osc ign owner)
                 \<subseteq> set (PackageMaintainers_project r))
       \<and> (\<forall>owner. \<not> (package_scope n owner \<and> project_scope owner))"
proof -
  from assms(4) obtain n' c' acc where
    n': "resolve_pkg_name pkg pkg_name = Inr n'"
    and c': "api_response osc (owner_search_request n' roles) = Inr (CollectionDoc c')"
    and acc: "snd (owner_loop osc (case groups_to_ignore of None \<Rightarrow> [] | Some gs \<Rightarrow> gs) n'
                (OwnerCollection_owner c') ([], [])) = Inr acc"
    and r: "r = \<lparr>PackageMaintainers_package = list_set (fst acc),
                 PackageMaintainers_project = list_set (snd acc)\<rparr>"
    by (rule snd_search_Inr)
  from n' assms(1) have [simp]: "n' = n" by simp
  from c' assms(3) have [simp]: "c' = c" by simp
  from acc have loop: "snd (owner_loop osc ign n (OwnerCollection_owner c) ([], [])) = Inr acc"
    by (simp add: assms(5))
  note sets = snd_owner_loop_Inr [OF loop]
  have pkg_set: "set (PackageMaintainers_package r)
           = (\<Union>owner\<in>set (filter (package_scope n) (OwnerCollection_owner c)).
                 owner_contribution osc ign owner)"
    using sets by (simp add: r list_set_def)
  have prj_set: "set (PackageMaintainers_project r)
           = (\<Union>owner\<in>set (filter project_scope (OwnerCollection_owner c)).
                 owner_contribution osc ign owner)"
    using sets by (simp add: r list_set_def)
  have excl: "\<forall>owner. \<not> (package_scope n owner \<and> project_scope owner)"
    using assms(2) by (auto simp: package_scope_def project_scope_def)
  have pkg_persons: "\<forall>owner\<in>set (OwnerCollection_owner c).
             package_scope n owner \<longrightarrow>
               set (Owner_person owner) \<subseteq> set (PackageMaintainers_package r)"
    unfolding pkg_set by (auto simp: owner_contribution_def)
  have prj_persons: "\<forall>owner\<in>set (OwnerCollection_owner c).
             project_scope owner \<longrightarrow>
               set (Owner_person owner) \<union> set (resolved_members osc ign owner)
                 \<subseteq> set (PackageMaintainers_project r)"
    unfolding prj_set by (auto simp: owner_contribution_def)
  from pkg_set prj_set pkg_persons prj_persons excl show ?thesis
    by blast
qed

theorem scopes_of_owner_records_witness:
  "resolve_pkg_name None (Some ''pkgA'') = Inr ''pkgA''
   \<and> snd (search_for_maintainers osc_two_owners None (Some ''pkgA'') None None)
       = Inr \<lparr>PackageMaintainers_package = [Person2 ''alice'' (Some ''maintainer''), Person2 ''bob'' None],
              PackageMaintainers_project = [Person2 ''carol'' (Some ''maintainer''), Person2 ''alice'' (Some ''maintainer''), Person2 ''bob'' None]\<rparr>
   \<and> set [Person2 ''alice'' (Some ''maintainer''), Person2 ''bob'' None]
       = (\<Union>owner\<in>set (filter (package_scope ''pkgA'') [owner_pkgA, owner_prj]).
             owner_contribution osc_two_owners [] owner)
   \<and> set [Person2 ''carol'' (Some ''maintainer''), Person2 ''alice'' (Some ''maintainer''), Person2 ''bob'' None]
       = (\<Union>owner\<in>set (filter project_scope [owner_pkgA, owner_prj]).
             owner_contribution osc_two_owners [] owner)"
proof -
  have h1: "resolve_pkg_name None (Some ''pkgA'') = Inr ''pkgA''"
    by code_simp
  have h2: "''pkgA'' \<noteq> []"
    by simp
  have h3: "api_response osc_two_owners (owner_search_request ''pkgA'' None)
              = Inr (CollectionDoc \<lparr>OwnerCollection_owner = [owner_pkgA, owner_prj]\<rparr>)"
    by (simp add: osc_two_owners_def)
  have h4: "snd (search_for_maintainers osc_two_owners None (Some ''pkgA'') None None)
       = Inr \<lparr>PackageMaintainers_package = [Person2 ''alice'' (Some ''maintainer''), Person2 ''bob'' None],
              PackageMaintainers_project = [Person2 ''carol'' (Some ''maintainer''), Person2 ''alice'' (Some ''maintainer''), Person2 ''bob'' None]\<rparr>"
    by code_simp
  have h5: "[] = (case None :: string list option of None \<Rightarrow> [] | Some gs \<Rightarrow> gs)"
    by simp
  note scopes = scopes_of_owner_records [OF h1 h2 h3 h4 h5]
  have pkg_list: "set [Person2 ''alice'' (Some ''maintainer''), Person2 ''bob'' None]
       = (\<Union>owner\<in>set (filter (package_scope ''pkgA'') [owner_pkgA, owner_prj]).
             owner_contribution osc_two_owners [] owner)"
    using scopes [THEN conjunct1]
    by (simp only: PackageMaintainers.select_convs OwnerCollection.select_convs)
  have prj_list: "set [Person2 ''carol'' (Some ''maintainer''), Person2 ''alice'' (Some ''maintainer''), Person2 ''bob'' None]
       = (\<Union>owner\<in>set (filter project_scope [owner_pkgA, owner_prj]).
             owner_contribution osc_two_owners [] owner)"
    using scopes [THEN conjunct2, THEN conjunct1]
    by (simp only: PackageMaintainers.select_convs OwnerCollection.select_convs)
  from h1 h4 pkg_list prj_list show ?thesis
    by (intro conjI)
qed

theorem empty_name_in_both_scopes:
  "resolve_pkg_name (Some pkg_unnamed) None = Inr []
   \<and> package_scope [] owner_empty_pkg \<and> project_scope owner_empty_pkg
   \<and> search_for_maintainers osc_empty_pkg (Some pkg_unnamed) None None None
       = ([ApiRequest (owner_search_request [] None)],
          Inr \<lparr>PackageMaintainers_package = [Person2 ''alice'' (Some ''maintainer'')],
                PackageMaintainers_project = [Person2 ''alice'' (Some ''maintainer'')]\<rparr>)"
  by code_simp

text \<open>
  Claim C6. A group named in \<open>groups_to_ignore\<close> is never fetched, and the call does not
  depend on it: on two services that answer the owner search alike and agree on every
  group that is not ignored, whatever the ignored groups resolve to, the call issues the
  same requests and gives the same result. So an ignored group adds no member to either
  list, also when it would resolve.
\<close>

theorem ignored_group_contributes_nothing:
  assumes "g \<in> set gs"
    and "api_response osc' = api_response osc"
    and "\<forall>h. h \<notin> set gs \<longrightarrow> group_response osc' h = group_response osc h"
  shows "GroupFetch g \<notin> set (fst (search_for_maintainers osc pkg pkg_name roles (Some gs)))
       \<and> search_for_maintainers osc' pkg pkg_name roles (Some gs)
           = search_for_maintainers osc pkg pkg_name roles (Some gs)"
proof
  show "GroupFetch g \<notin> set (fst (search_for_maintainers osc pkg pkg_name roles (Some gs)))"
  proof (cases "resolve_pkg_name pkg pkg_name")
    case (Inl e)
    then show ?thesis
      by (simp add: search_unresolved)
  next
    case (Inr n)
    from fst_search_resolved [OF this, of osc roles "Some gs"] assms(1) show ?thesis
      by auto
  qed
  show "search_for_maintainers osc' pkg pkg_name roles (Some gs)
          = search_for_maintainers osc pkg pkg_name roles (Some gs)"
  proof (cases "resolve_pkg_name pkg pkg_name")
    case (Inl e)
    then show ?thesis
      by (simp add: search_unresolved)
  next
    case (Inr n)
    have "owner_loop osc' gs = owner_loop osc gs"
      by (intro ext) (rule owner_loop_cong [OF assms(3)])
    then show ?thesis
      by (simp add: search_for_maintainers_def Inr api_request_def assms(2))
  qed
qed

theorem ignored_group_contributes_nothing_witness:
  "''grp1'' \<in> set [''grp1'']
   \<and> group_response osc_scenario ''grp1'' = Inr group_grp1
   \<and> group_response osc_group_gone ''grp1'' = Inl (HTTPStatus 404)
   \<and> GroupFetch ''grp1''
       \<notin> set (fst (search_for_maintainers osc_scenario None (Some ''pkgA'') None (Some [''grp1''])))
   \<and> search_for_maintainers osc_group_gone None (Some ''pkgA'') None (Some [''grp1''])
       = search_for_maintainers osc_scenario None (Some ''pkgA'') None (Some [''grp1''])"
proof -
  have h1: "''grp1'' \<in> set [''grp1'']"
    by simp
  have h2: "api_response osc_group_gone = api_response osc_scenario"
    by (simp add: osc_group_gone_def osc_scenario_def)
  have h3: "\<forall>h. h \<notin> set [''grp1''] \<longrightarrow>
              group_response osc_group_gone h = group_response osc_scenario h"
    by (simp add: osc_group_gone_def osc_scenario_def)
  have "group_response osc_scenario ''grp1'' = Inr group_grp1"
    and "group_response osc_group_gone ''grp1'' = Inl (HTTPStatus 404)"
    by (simp_all add: osc_group_gone_def osc_scenario_def)
  with ignored_group_contributes_nothing [OF h1 h2 h3, of None "Some ''pkgA''" None] h1
  show ?thesis
    by (intro conjI) simp_all
qed

text \<open>
  Claim C7. The owner search has succeeded, an owner record in package scope or in project
  scope names a group that is not ignored, and fetching that group fails. Then the call
  returns no result: it fails with the transport error of a failed group fetch of an owner
  record in scope (that very error when no other group fetch fails), whatever the other
  owner records hold.
\<close>

theorem group_fetch_failure_propagates:
  assumes "resolve_pkg_name pkg pkg_name = Inr n"
    and "api_response osc (owner_search_request n roles) = Inr (CollectionDoc c)"
    and "ign = (case groups_to_ignore of None \<Rightarrow> [] | Some gs \<Rightarrow> gs)"
    and "owner \<in> set (OwnerCollection_owner c)"
    and "package_scope n owner \<or> project_scope owner"
    and "grp \<in> set (Owner_group owner)" and "Group_name grp \<notin> set ign"
    and "group_response osc (Group_name grp) = Inl te"
  shows "\<exists>te'. snd (search_for_maintainers osc pkg pkg_name roles groups_to_ignore)
                 = Inl (TransportError te')
           \<and> (\<exists>owner'\<in>set (OwnerCollection_owner c).
                 (package_scope n owner' \<or> project_scope owner')
                 \<and> (\<exists>grp'\<in>set (Owner_group owner'). Group_name grp' \<notin> set ign
                       \<and> group_response osc (Group_name grp') = Inl te'))"
proof -
  obtain e where e: "snd (owner_loop osc ign n (OwnerCollection_owner c) ([], [])) = Inl e"
    using owner_loop_fails [OF assms(4-8)] by blast
  then have "snd (search_for_maintainers osc pkg pkg_name roles groups_to_ignore) = Inl e"
    by (simp add: snd_search_resolved [OF assms(1,2)] assms(3) [symmetric])
  with snd_owner_loop_Inl [OF e] show ?thesis
    by blast
qed

theorem group_fetch_failure_propagates_witness:
  "group_response osc_group_gone ''grp1'' = Inl (HTTPStatus 404)
   \<and> snd (search_for_maintainers osc_group_gone None (Some ''pkgA'') None None)
       = Inl (TransportError (HTTPStatus 404))"
proof -
  have h1: "resolve_pkg_name None (Some ''pkgA'') = Inr ''pkgA''"
    by code_simp
  have h2: "api_response osc_group_gone (owner_search_request ''pkgA'' None)
              = Inr (CollectionDoc \<lparr>OwnerCollection_owner = [owner_pkgA]\<rparr>)"
    by (simp add: osc_group_gone_def)
  have h3: "[] = (case None :: string list option of None \<Rightarrow> [] | Some gs \<Rightarrow> gs)"
    by simp
  have h4: "owner_pkgA \<in> set (OwnerCollection_owner \<lparr>OwnerCollection_owner = [owner_pkgA]\<rparr>)"
    by simp
  have h5: "package_scope ''pkgA'' owner_pkgA \<or> project_scope owner_pkgA"
    by (simp add: package_scope_def owner_pkgA_def)
  have h6: "\<lparr>Group_name = ''grp1''\<rparr> \<in> set (Owner_group owner_pkgA)"
    by (simp add: owner_pkgA_def)
  have h7: "Group_name \<lparr>Group_name = ''grp1''\<rparr> \<notin> set []"
    by simp
  have h8: "group_response osc_group_gone (Group_name \<lparr>Group_name = ''grp1''\<rparr>)
              = Inl (HTTPStatus 404)"
    by (simp add: osc_group_gone_def)
  obtain te' where
    fails: "snd (search_for_maintainers osc_group_gone None (Some ''pkgA'') None None)
              = Inl (TransportError te')"
    and "\<exists>owner'\<in>set (OwnerCollection_owner \<lparr>OwnerCollection_owner = [owner_pkgA]\<rparr>).
           (package_scope ''pkgA'' owner' \<or> project_scope owner')
           \<and> (\<exists>grp'\<in>set (Owner_group owner'). Group_name grp' \<notin> set []
                 \<and> group_response osc_group_gone (Group_name grp') = Inl te')"
    using group_fetch_failure_propagates [OF h1 h2 h3 h4 h5 h6 h7 h8] by blast
  then have "te' = HTTPStatus 404"
    by (auto simp: osc_group_gone_def)
  with fails h8 show ?thesis
    by simp
qed

text \<open>
  Claim C9, as amended. A call that passes a package identifier (a non-empty \<open>pkg_name\<close>, or
  a \<open>pkg\<close> record) issues exactly one request through the transport, before anything
  else: a \<open>GET\<close> to \<open>/search/owner\<close> whose parameter \<open>package\<close> is the resolved package
  name and which has the parameter \<open>filter\<close>, the role names joined by commas, exactly
  when a non-empty list of roles was passed. Every other event of the call is a group
  fetch.
\<close>

theorem one_owner_search_request:
  assumes "truthy_str pkg_name \<or> pkg \<noteq> None"
  shows "\<exists>rest. fst (search_for_maintainers osc pkg pkg_name roles groups_to_ignore)
             = ApiRequest
                 \<lparr>req_route = ''/search/owner'', req_method = Some GET,
                  req_params =
                    Some ((''package'',
                           if truthy_str pkg_name then the pkg_name else Package_name (the pkg))
                          # (if truthy_list roles then [(''filter'', join '','' (the roles))]
                             else [])),
                  req_payload = None\<rparr> # rest
           \<and> list_all is_group_fetch rest"
proof -
  let ?n = "if truthy_str pkg_name then the pkg_name else Package_name (the pkg)"
  have res: "resolve_pkg_name pkg pkg_name = Inr ?n"
    using assms by (cases pkg_name; cases pkg) (auto simp: resolve_pkg_name_def)
  have req: "owner_search_request ?n roles
      = \<lparr>req_route = ''/search/owner'', req_method = Some GET,
         req_params = Some ((''package'', ?n)
                            # (if truthy_list roles then [(''filter'', join '','' (the roles))]
                               else [])),
         req_payload = None\<rparr>"
    by (cases roles) (simp_all add: owner_search_request_def)
  from fst_search_resolved [OF res, of osc roles groups_to_ignore] obtain rest where
    trace: "fst (search_for_maintainers osc pkg pkg_name roles groups_to_ignore)
              = ApiRequest (owner_search_request ?n roles) # rest"
    and fetches: "\<forall>ev\<in>set rest. \<exists>g. ev = GroupFetch g
                 \<and> g \<notin> set (case groups_to_ignore of None \<Rightarrow> [] | Some gs \<Rightarrow> gs)"
    by blast
  from fetches have "list_all is_group_fetch rest"
    by (fastforce simp: list_all_iff is_group_fetch_def)
  with trace show ?thesis
    unfolding req by blast
qed

theorem one_owner_search_request_witness:
  "fst (search_for_maintainers osc_scenario None (Some ''pkgA'')
          (Some [''maintainer'', ''bugowner'']) None)
     = [ApiRequest
          \<lparr>req_route = ''/search/owner'', req_method = Some GET,
           req_params = Some [(''package'', ''pkgA''), (''filter'', ''maintainer,bugowner'')],
           req_payload = None\<rparr>,
        GroupFetch ''grp1'']
   \<and> (\<exists>rest. fst (search_for_maintainers osc_scenario (Some pkg_unnamed) None None None)
                = ApiRequest
                    \<lparr>req_route = ''/search/owner'', req_method = Some GET,
                     req_params = Some [(''package'', [])], req_payload = None\<rparr> # rest
              \<and> list_all is_group_fetch rest)"
proof -
  have run: "fst (search_for_maintainers osc_scenario None (Some ''pkgA'')
          (Some [''maintainer'', ''bugowner'']) None)
     = [ApiRequest
          \<lparr>req_route = ''/search/owner'', req_method = Some GET,
           req_params = Some [(''package'', ''pkgA''), (''filter'', ''maintainer,bugowner'')],
           req_payload = None\<rparr>,
        GroupFetch ''grp1'']"
    by code_simp
  have h: "truthy_str None \<or> Some pkg_unnamed \<noteq> None"
    by simp
  from one_owner_search_request [OF h, of osc_scenario None None] run show ?thesis
    by (simp add: pkg_unnamed_def)
qed

theorem no_identifier_no_request:
  "search_for_maintainers osc_scenario None None None None = ([], Inl (AssertionError []))
   \<and> search_for_maintainers osc_scenario None (Some []) None None = ([], Inl (AssertionError []))"
  by code_simp

text \<open>
  Claim C10. With a \<open>Package\<close> record and a non-empty package name both passed, the
  record is ignored: the call issues the same requests and gives the same outcome as the
  call with the name alone, and it does not fail with an assertion error.
\<close>

theorem pkg_ignored_when_name_given:
  assumes "n \<noteq> []"
  shows "search_for_maintainers osc (Some p) (Some n) roles groups_to_ignore
           = search_for_maintainers osc None (Some n) roles groups_to_ignore
       \<and> (\<forall>msg. snd (search_for_maintainers osc (Some p) (Some n) roles groups_to_ignore)
                  \<noteq> Inl (AssertionError msg))"
proof -
  have res: "resolve_pkg_name (Some p) (Some n) = Inr n"
    and res': "resolve_pkg_name None (Some n) = Inr n"
    using assms by (simp_all add: resolve_pkg_name_def)
  have "search_for_maintainers osc (Some p) (Some n) roles groups_to_ignore
           = search_for_maintainers osc None (Some n) roles groups_to_ignore"
    by (simp add: search_for_maintainers_def res res')
  moreover have "\<forall>msg. snd (search_for_maintainers osc (Some p) (Some n) roles groups_to_ignore)
                  \<noteq> Inl (AssertionError msg)"
    using snd_search_Inl [OF _ res] by fastforce
  ultimately show ?thesis
    by simp
qed

theorem pkg_ignored_when_name_given_witness:
  "''pkgA'' \<noteq> []
   \<and> search_for_maintainers osc_scenario (Some pkg_unnamed) (Some ''pkgA'') None None
       = search_for_maintainers osc_scenario None (Some ''pkgA'') None None
   \<and> snd (search_for_maintainers osc_scenario (Some pkg_unnamed) (Some ''pkgA'') None None)
       = Inr \<lparr>PackageMaintainers_package = [Person2 ''alice'' (Some ''maintainer''), Person2 ''bob'' None],
              PackageMaintainers_project = []\<rparr>"
proof -
  have h: "''pkgA'' \<noteq> []"
    by simp
  have run: "snd (search_for_maintainers osc_scenario None (Some ''pkgA'') None None)
       = Inr \<lparr>PackageMaintainers_package = [Person2 ''alice'' (Some ''maintainer''), Person2 ''bob'' None],
              PackageMaintainers_project = []\<rparr>"
    by code_simp
  from pkg_ignored_when_name_given [OF h, of osc_scenario pkg_unnamed None None] run
  show ?thesis
    by simp
qed

section \<open>\<open>send_meta\<close>, \<open>delete\<close> and \<open>fetch_file_list\<close>\<close>








text \<open>
  Claim C8, as amended. For a project of name \<open>p\<close> and a package of name \<open>q\<close>, each passed
  as a record or as a string, \<open>delete\<close> issues exactly one request, a \<open>DELETE\<close>: to
  \<open>/source/p/\<close>, with the slash at the end, when no package is passed, and to
  \<open>/source/p/q\<close> when the package is passed. The request has the parameter \<open>force=1\<close>
  when \<open>force\<close> is true and no parameters otherwise.
\<close>

theorem delete_request:
  assumes "p = (case prj of Inl r \<Rightarrow> Project_name r | Inr s \<Rightarrow> s)"
    and "q = (case pkg of Inl r \<Rightarrow> Package_name r | Inr s \<Rightarrow> s)"
  shows "fst (delete osc prj None force)
           = [ApiRequest
                \<lparr>req_route = ''/source/'' @ p @ ''/'', req_method = Some DELETE,
                 req_params = (if force then Some [(''force'', ''1'')] else None),
                 req_payload = None\<rparr>]
       \<and> fst (delete osc prj (Some pkg) force)
           = [ApiRequest
                \<lparr>req_route = ''/source/'' @ p @ ''/'' @ q, req_method = Some DELETE,
                 req_params = (if force then Some [(''force'', ''1'')] else None),
                 req_payload = None\<rparr>]"
  using assms
  by (cases pkg) (auto simp: delete_def fst_bind_io api_request_def split: sum.splits)

theorem delete_request_witness:
  "fst (delete osc_plain (Inr ''home:x'') (Some (Inr ''pkgA'')) True)
     = [ApiRequest
          \<lparr>req_route = ''/source/home:x/pkgA'', req_method = Some DELETE,
           req_params = Some [(''force'', ''1'')], req_payload = None\<rparr>]
   \<and> fst (delete osc_plain (Inl prj_home_x) None False)
       = [ApiRequest
            \<lparr>req_route = ''/source/home:x/'', req_method = Some DELETE, req_params = None,
             req_payload = None\<rparr>]"
proof -
  have h1: "''home:x'' = (case Inr ''home:x'' :: Project + string of
                            Inl r \<Rightarrow> Project_name r | Inr s \<Rightarrow> s)"
    and h1': "''home:x'' = (case Inl prj_home_x :: Project + string of
                            Inl r \<Rightarrow> Project_name r | Inr s \<Rightarrow> s)"
    and h2: "''pkgA'' = (case Inr ''pkgA'' :: Package + string of
                           Inl r \<Rightarrow> Package_name r | Inr s \<Rightarrow> s)"
    by (simp_all add: prj_home_x_def)
  from delete_request [OF h1 h2, of osc_plain True] delete_request [OF h1' h2, of osc_plain False]
  show ?thesis
    by simp
qed

theorem delete_project_trailing_slash:
  "fst (delete osc_plain (Inr ''home:x'') None False)
     = [ApiRequest
          \<lparr>req_route = ''/source/home:x/'', req_method = Some DELETE, req_params = None,
           req_payload = None\<rparr>]
   \<and> ''/source/home:x/'' \<noteq> ''/source/home:x''"
  by code_simp

text \<open>
  Claim C4. The claim fails on the code. The directory listing holds an entry without a
  hash, the entry of an empty file, whose name, hash, size (zero) and modification time are
  all present, and the entry of a file of ten bytes. The function returns the third entry
  only: the entry of the empty file is dropped with the incomplete one.
\<close>

theorem empty_file_dropped:
  "Entry_name entry_empty_file = Some ''empty.txt''
   \<and> Entry_md5 entry_empty_file = Some ''d41d8cd98f00b204e9800998ecf8427e''
   \<and> Entry_size entry_empty_file = Some 0
   \<and> Entry_mtime entry_empty_file = Some 100
   \<and> snd (fetch_file_list (osc_listing [entry_a, entry_empty_file, entry_b])
            (Inr ''home:x'') (Inr ''pkgA''))
       = Inr [\<lparr>File_name = ''b.txt'', File_md5_sum = ''abc123'', File_size = 10,
               File_mtime = 100\<rparr>]"
  by code_simp

end
